theory Spec2Isabelle
  imports Complex_Main "HOL-Library.Word"
begin

section \<open>TCPing: a shallow embedding of \<^verbatim>\<open>src/main.go\<close>\<close>

text \<open>
  Conventions of the embedding.
  \<^item> Go's \<^verbatim>\<open>int64\<close> is \<open>64 word\<close>; \<open>+\<close> wraps as Go's does, and the comparisons of
    the source are the signed ones (\<open>word_sless\<close>, \<open>word_sle\<close>). Go's \<^verbatim>\<open>int\<close> is 64 bits
    wide as well: the build workflow of the repository targets amd64 and arm64 only.
  \<^item> Go's \<^verbatim>\<open>float64\<close> is \<open>real\<close>. Every elapsed time of the program is a finite number
    (a count of microseconds divided by 1000), never a NaN, and on such values the
    comparisons of the source are the order of the reals. Rounding of \<open>+\<close> and \<open>/\<close> is
    not modelled.
  \<^item> The mutex of \<^verbatim>\<open>Statistics\<close> makes \<^verbatim>\<open>update\<close> and \<^verbatim>\<open>getStats\<close> atomic; each is one
    function from state to state.
  \<^item> Messages are values of a datatype, one constructor for each format string of the
    source, holding the arguments of the format in order.
\<close>

type_synonym int64 = "64 word"
type_synonym go_int = "64 word"
type_synonym float64 = real

subsection \<open>Statistics\<close>

record Statistics =
  sentCount :: int64
  respondedCount :: int64
  minTime :: float64
  maxTime :: float64
  totalTime :: float64

text \<open>The zero value \<^verbatim>\<open>&Statistics{}\<close> that \<^verbatim>\<open>main\<close> starts from.\<close>

definition Statistics_zero :: Statistics where
  "Statistics_zero =
     \<lparr>sentCount = 0, respondedCount = 0, minTime = 0, maxTime = 0, totalTime = 0\<rparr>"

definition update :: "float64 \<Rightarrow> bool \<Rightarrow> Statistics \<Rightarrow> Statistics" where
  "update elapsed success s =
     (let s1 = s\<lparr>sentCount := sentCount s + 1\<rparr> in
      if \<not> success then s1
      else
        let s2 = s1\<lparr>respondedCount := respondedCount s1 + 1,
                    totalTime := totalTime s1 + elapsed\<rparr> in
        if respondedCount s2 = 1 then s2\<lparr>minTime := elapsed, maxTime := elapsed\<rparr>
        else
          let s3 = (if elapsed < minTime s2 then s2\<lparr>minTime := elapsed\<rparr> else s2) in
          if elapsed > maxTime s3 then s3\<lparr>maxTime := elapsed\<rparr> else s3)"

definition getStats :: "Statistics \<Rightarrow> int64 \<times> int64 \<times> float64 \<times> float64 \<times> float64" where
  "getStats s =
     (let avg = (if 0 <s respondedCount s
                 then totalTime s / real_of_int (sint (respondedCount s)) else 0)
      in (sentCount s, respondedCount s, minTime s, maxTime s, avg))"

text \<open>A sequence of calls \<^verbatim>\<open>update(elapsed, success)\<close>, applied in order.\<close>

fun updates :: "(float64 \<times> bool) list \<Rightarrow> Statistics \<Rightarrow> Statistics" where
  "updates [] s = s"
| "updates (c # cs) s = updates cs (update (fst c) (snd c) s)"

text \<open>The elapsed values of the successful calls of a sequence, in call order.\<close>

definition successes :: "(float64 \<times> bool) list \<Rightarrow> float64 list" where
  "successes calls = map fst (filter snd calls)"

text \<open>
  The invariant of the aggregator that the specification names: no more responses than
  attempts, and an ordered range once there is a response.
\<close>

definition Statistics_inv :: "Statistics \<Rightarrow> bool" where
  "Statistics_inv s \<longleftrightarrow>
     respondedCount s \<le>s sentCount s \<and>
     (1 \<le>s respondedCount s \<longrightarrow> minTime s \<le> maxTime s)"

definition max_int64 :: int64 where
  "max_int64 = 0x7FFFFFFFFFFFFFFF"

subsection \<open>Options and messages\<close>

record Options =
  UseIPv4 :: bool
  UseIPv6 :: bool
  Count :: go_int
  Interval :: go_int
  Timeout :: go_int
  ColorOutput :: bool
  VerboseMode :: bool
  ShowVersion :: bool
  ShowHelp :: bool
  Port :: go_int

text \<open>A float printed with the verb \<^verbatim>\<open>%.Nf\<close>: the precision \<open>N\<close> and the value.\<close>

datatype fnum = Fixed nat float64

text \<open>
  One constructor for each message of the source, with the arguments of its format
  string in order: the interruption notice of \<^verbatim>\<open>pingOnce\<close>; its failure line
  (ip, port, seq, error) and verbose detail (elapsed \<^verbatim>\<open>%.2f\<close>, address, port); its
  response line (ip, port, seq, elapsed \<^verbatim>\<open>%.2f\<close>) and verbose detail (local address,
  ip, port); the header, the totals line (sent, responded, lost, loss rate \<^verbatim>\<open>%.1f\<close>) and
  the RTT line (min, max, avg, each \<^verbatim>\<open>%.2f\<close>) of \<^verbatim>\<open>printTCPingStatistics\<close>; and the
  interruption notice of \<^verbatim>\<open>main\<close>.
\<close>

datatype msg =
    MsgAttemptInterrupted
  | MsgFailure string string go_int string
  | MsgFailureDetail fnum string string
  | MsgResponse string string go_int fnum
  | MsgResponseDetail string string string
  | MsgStatsHeader
  | MsgStatsTotals int64 int64 int64 fnum
  | MsgStatsRTT fnum fnum fnum
  | MsgMainInterrupted

text \<open>A printed text: as it is, or wrapped in the escape sequence of a colour code.\<close>

datatype 'a styled = Plain 'a | Coloured string 'a

definition colorText :: "'a \<Rightarrow> string \<Rightarrow> bool \<Rightarrow> 'a styled" where
  "colorText text colorCode useColor =
     (if \<not> useColor then Plain text else Coloured colorCode text)"

definition successText :: "'a \<Rightarrow> bool \<Rightarrow> 'a styled" where
  "successText text useColor = colorText text ''32'' useColor"

definition errorText :: "'a \<Rightarrow> bool \<Rightarrow> 'a styled" where
  "errorText text useColor = colorText text ''31'' useColor"

definition infoText :: "'a \<Rightarrow> bool \<Rightarrow> 'a styled" where
  "infoText text useColor = colorText text ''36'' useColor"

subsection \<open>Errors\<close>

text \<open>
  One constructor for each error the source builds, in the order of the source:
  the six of \<^verbatim>\<open>resolveAddress\<close> (holding the address, and the cause for a failed
  lookup), then the six of \<^verbatim>\<open>validateOptions\<close>.
\<close>

datatype error =
    NotIPv4Address string
  | NotIPv6Address string
  | LookupFailed string string
  | NoIPFound string
  | NoIPv4Found string
  | NoIPv6Found string
  | BothFamilyFlags
  | NegativeInterval
  | NegativeTimeout
  | HostRequired
  | PortFormatInvalid
  | PortOutOfRange

subsection \<open>resolveAddress\<close>

text \<open>
  A \<^verbatim>\<open>net.IP\<close> is modelled by the two observations the source makes of it: whether
  \<^verbatim>\<open>To4()\<close> is non-nil, and the text \<^verbatim>\<open>String()\<close> returns. The functions
  \<^verbatim>\<open>net.ParseIP\<close> and \<^verbatim>\<open>net.LookupIP\<close> of Go's library are parameters: \<open>ParseIP\<close>
  returns \<open>None\<close> for Go's nil, \<open>LookupIP\<close> returns \<open>Inl\<close> of the cause for a non-nil error.
\<close>

datatype IP = IP (To4: bool) (String: string)

definition bracketed :: "string \<Rightarrow> string" where
  "bracketed s = ''['' @ s @ '']''"

definition resolveAddress ::
  "(string \<Rightarrow> IP option) \<Rightarrow> (string \<Rightarrow> string + IP list) \<Rightarrow>
     string \<Rightarrow> bool \<Rightarrow> bool \<Rightarrow> error + string" where
  "resolveAddress ParseIP LookupIP address useIPv4 useIPv6 =
     (case ParseIP address of
        Some ip \<Rightarrow>
          let isV4 = To4 ip in
          if useIPv4 \<and> \<not> isV4 then Inl (NotIPv4Address address)
          else if useIPv6 \<and> isV4 then Inl (NotIPv6Address address)
          else if \<not> isV4 then Inr (bracketed (String ip))
          else Inr (String ip)
      | None \<Rightarrow>
          (case LookupIP address of
             Inl err \<Rightarrow> Inl (LookupFailed address err)
           | Inr ipList \<Rightarrow>
               if length ipList = 0 then Inl (NoIPFound address)
               else if useIPv4 then
                 (case find To4 ipList of
                    Some ip \<Rightarrow> Inr (String ip)
                  | None \<Rightarrow> Inl (NoIPv4Found address))
               else if useIPv6 then
                 (case find (\<lambda>ip. \<not> To4 ip) ipList of
                    Some ip \<Rightarrow> Inr (bracketed (String ip))
                  | None \<Rightarrow> Inl (NoIPv6Found address))
               else
                 (case find To4 ipList of
                    Some ip \<Rightarrow> Inr (String ip)
                  | None \<Rightarrow>
                      (case find (\<lambda>ip. \<not> To4 ip) ipList of
                         Some ip \<Rightarrow> Inr (bracketed (String ip))
                       | None \<Rightarrow>
                           let ip = hd ipList in
                           if \<not> To4 ip then Inr (bracketed (String ip))
                           else Inr (String ip)))))"

subsection \<open>pingOnce\<close>

text \<open>
  The environment of one attempt is given to \<^verbatim>\<open>pingOnce\<close> as arguments: the value of
  \<^verbatim>\<open>ctx.Err()\<close> read at line 218, the result of \<^verbatim>\<open>d.DialContext\<close> (a connection and a nil
  error, or a non-nil error, whose text is kept) and the elapsed time measured. The
  result holds the statistics after the call, the messages printed, and the
  connections on which \<^verbatim>\<open>Close\<close> has run when the function returns.
\<close>

datatype ctx_error = Canceled | DeadlineExceeded

record conn =
  conn_id :: nat
  LocalAddr :: string

datatype dial_result = Connected conn | DialFailed string

record ping_result =
  ping_stats :: Statistics
  ping_printed :: "msg styled list"
  ping_closed :: "conn list"

definition pingOnce ::
  "ctx_error option \<Rightarrow> dial_result \<Rightarrow> float64 \<Rightarrow> string \<Rightarrow> string \<Rightarrow>
     Statistics \<Rightarrow> go_int \<Rightarrow> string \<Rightarrow> Options \<Rightarrow> ping_result" where
  "pingOnce ctxErr dialed elapsed address port stats seq ip opts =
     (if ctxErr = Some Canceled then
        \<lparr>ping_stats = stats,
         ping_printed = [infoText MsgAttemptInterrupted (ColorOutput opts)],
         ping_closed = []\<rparr>
      else
        (case dialed of
           DialFailed err \<Rightarrow>
             \<lparr>ping_stats = update elapsed False stats,
              ping_printed =
                errorText (MsgFailure ip port seq err) (ColorOutput opts) #
                (if VerboseMode opts
                 then [Plain (MsgFailureDetail (Fixed 2 elapsed) address port)] else []),
              ping_closed = []\<rparr>
         | Connected c \<Rightarrow>
             \<lparr>ping_stats = update elapsed True stats,
              ping_printed =
                successText (MsgResponse ip port seq (Fixed 2 elapsed)) (ColorOutput opts) #
                (if VerboseMode opts
                 then [Plain (MsgResponseDetail (LocalAddr c) ip port)] else []),
              ping_closed = [c]\<rparr>))"

text \<open>The connections a dial result holds open.\<close>

fun opened :: "dial_result \<Rightarrow> conn list" where
  "opened (Connected c) = [c]"
| "opened (DialFailed err) = []"

subsection \<open>printTCPingStatistics\<close>

text \<open>
  The function takes its snapshot with \<^verbatim>\<open>getStats\<close> (line 249) and prints from the
  snapshot (lines 251 to 262); \<open>printSnapshot\<close> is the second part.
\<close>

definition printSnapshot ::
  "int64 \<times> int64 \<times> float64 \<times> float64 \<times> float64 \<Rightarrow> msg styled list" where
  "printSnapshot snap =
     (case snap of (sent, responded, mn, mx, avg) \<Rightarrow>
        Plain MsgStatsHeader #
        (if 0 <s sent then
           (let lossRate =
                  real_of_int (sint (sent - responded)) / real_of_int (sint sent) * 100
            in Plain (MsgStatsTotals sent responded (sent - responded) (Fixed 1 lossRate)) #
               (if 0 <s responded
                then [Plain (MsgStatsRTT (Fixed 2 mn) (Fixed 2 mx) (Fixed 2 avg))]
                else []))
         else []))"

definition printTCPingStatistics :: "Statistics \<Rightarrow> msg styled list" where
  "printTCPingStatistics stats = printSnapshot (getStats stats)"

subsection \<open>validateOptions\<close>

text \<open>
  \<^verbatim>\<open>strconv.Atoi\<close> and \<^verbatim>\<open>strconv.Itoa\<close> belong to Go's library, not to the repository.
  They are modelled from the library's documentation: \<open>Atoi\<close> accepts an optional sign
  followed by one or more decimal digits whose value fits the 64-bit \<^verbatim>\<open>int\<close>, and
  returns \<open>None\<close> (a non-nil error) for every other string; \<open>Itoa\<close> writes the decimal
  digits of its argument, after a minus sign when it is negative.
\<close>

definition is_digit :: "char \<Rightarrow> bool" where
  "is_digit c \<longleftrightarrow> 48 \<le> (of_char c :: nat) \<and> (of_char c :: nat) \<le> 57"

fun digits_value :: "nat \<Rightarrow> string \<Rightarrow> nat option" where
  "digits_value acc [] = Some acc"
| "digits_value acc (c # cs) =
     (if is_digit c then digits_value (acc * 10 + (of_char c - 48)) cs else None)"

definition Atoi :: "string \<Rightarrow> go_int option" where
  "Atoi s =
     (let (neg, ds) =
            (case s of
               [] \<Rightarrow> (False, [])
             | c # r \<Rightarrow>
                 if c = CHR ''-'' then (True, r)
                 else if c = CHR ''+'' then (False, r)
                 else (False, s))
      in if ds = [] then None
         else
           (case digits_value 0 ds of
              None \<Rightarrow> None
            | Some n \<Rightarrow>
                let v = (if neg then - int n else int n) in
                if - (2 ^ 63) \<le> v \<and> v < 2 ^ 63 then Some (word_of_int v) else None))"

function Itoa_digits :: "nat \<Rightarrow> string" where
  "Itoa_digits n =
     (if n < 10 then [''0123456789'' ! n]
      else Itoa_digits (n div 10) @ [''0123456789'' ! (n mod 10)])"
  by pat_completeness auto
termination
  by (relation "measure id") auto

declare Itoa_digits.simps [simp del]

definition Itoa :: "go_int \<Rightarrow> string" where
  "Itoa i =
     (if sint i < 0 then CHR ''-'' # Itoa_digits (nat (- sint i))
      else Itoa_digits (nat (sint i)))"

definition validateOptions :: "Options \<Rightarrow> string list \<Rightarrow> error + (string \<times> string)" where
  "validateOptions opts args =
     (if UseIPv4 opts \<and> UseIPv6 opts then Inl BothFamilyFlags
      else if Interval opts <s 0 then Inl NegativeInterval
      else if Timeout opts <s 0 then Inl NegativeTimeout
      else
        (case args of
           [] \<Rightarrow> Inl HostRequired
         | host # rest \<Rightarrow>
             let port =
                   (case rest of
                      p # _ \<Rightarrow> p
                    | [] \<Rightarrow> if 0 <s Port opts then Itoa (Port opts) else ''80'')
             in (case Atoi port of
                   None \<Rightarrow> Inl PortFormatInvalid
                 | Some portNum \<Rightarrow>
                     if portNum \<le>s 0 \<or> 65535 <s portNum then Inl PortOutOfRange
                     else Inr (host, port))))"

subsection \<open>The probe loop\<close>

text \<open>
  The goroutine that \<^verbatim>\<open>main\<close> starts (lines 411 to 437) is a step function over its
  program points. Each step is one action that the rest of the program can observe
  or influence:
  \<^item> \<open>LoopHead i\<close>: the loop condition of line 414 and the \<^verbatim>\<open>select\<close> of lines 416 to
    420 are evaluated; the loop ends, or \<^verbatim>\<open>pingOnce\<close> is called with sequence number
    \<open>i\<close> and starts to dial.
  \<^item> \<open>InPing i\<close>: \<^verbatim>\<open>DialContext\<close> returns and \<^verbatim>\<open>ctx.Err()\<close> is read (line 218). Under
    cancellation the notice is printed and \<^verbatim>\<open>pingOnce\<close> returns.
  \<^item> \<open>Recording i d t\<close>: the rest of \<^verbatim>\<open>pingOnce\<close> from line 224 runs for the dial
    result \<open>d\<close> and the elapsed time \<open>t\<close>: the statistics are updated and the result
    is printed.
  \<^item> \<open>Waiting i\<close>: the \<^verbatim>\<open>select\<close> of lines 431 to 435 completes, by the context (only
    when it is cancelled) or by the timer, and \<open>i\<close> is incremented.
  \<^item> \<open>Exited\<close>: the goroutine has returned and \<^verbatim>\<open>wg.Done\<close> has run.
  After \<^verbatim>\<open>pingOnce\<close> returns, the test of line 426 is local and is part of the same step.
  The argument \<open>cancelled\<close> of a step says whether the shared context is cancelled when
  the step runs; the environment of a step gives the result of the dial and, for a
  \<^verbatim>\<open>select\<close> with both cases ready, which one is taken.
\<close>

datatype loc =
    LoopHead go_int
  | InPing go_int
  | Recording go_int dial_result float64
  | Waiting go_int
  | Exited

record probe_env =
  env_dial :: dial_result
  env_elapsed :: float64
  env_pick_ctx :: bool

record run_config =
  cfg_opts :: Options
  cfg_address :: string
  cfg_port :: string
  cfg_ip :: string

text \<open>
  The state of the goroutine: its program point, the shared statistics, what it has
  printed, the connections it has closed, and the sequence numbers \<^verbatim>\<open>pingOnce\<close> has
  been called with (a history variable, read by no step).
\<close>

record probe =
  loc :: loc
  stats :: Statistics
  printed :: "msg styled list"
  conns_closed :: "conn list"
  attempts :: "go_int list"

definition after_ping :: "run_config \<Rightarrow> go_int \<Rightarrow> loc" where
  "after_ping cfg i =
     (if Count (cfg_opts cfg) \<noteq> 0 \<and> i = Count (cfg_opts cfg) - 1 then Exited
      else Waiting i)"

definition apply_ping :: "run_config \<Rightarrow> go_int \<Rightarrow> ping_result \<Rightarrow> probe \<Rightarrow> probe" where
  "apply_ping cfg i r g =
     g\<lparr>stats := ping_stats r,
       printed := printed g @ ping_printed r,
       conns_closed := conns_closed g @ ping_closed r,
       loc := after_ping cfg i\<rparr>"

definition loop_step :: "run_config \<Rightarrow> bool \<Rightarrow> probe_env \<Rightarrow> probe \<Rightarrow> probe" where
  "loop_step cfg cancelled e g =
     (case loc g of
        LoopHead i \<Rightarrow>
          if Count (cfg_opts cfg) = 0 \<or> i <s Count (cfg_opts cfg) then
            (if cancelled then g\<lparr>loc := Exited\<rparr>
             else g\<lparr>loc := InPing i, attempts := attempts g @ [i]\<rparr>)
          else g\<lparr>loc := Exited\<rparr>
      | InPing i \<Rightarrow>
          if cancelled then
            apply_ping cfg i
              (pingOnce (Some Canceled) (env_dial e) (env_elapsed e) (cfg_address cfg)
                 (cfg_port cfg) (stats g) i (cfg_ip cfg) (cfg_opts cfg)) g
          else g\<lparr>loc := Recording i (env_dial e) (env_elapsed e)\<rparr>
      | Recording i d t \<Rightarrow>
          apply_ping cfg i
            (pingOnce None d t (cfg_address cfg) (cfg_port cfg) (stats g) i (cfg_ip cfg)
               (cfg_opts cfg)) g
      | Waiting i \<Rightarrow>
          if cancelled \<and> env_pick_ctx e then g\<lparr>loc := Exited\<rparr>
          else g\<lparr>loc := LoopHead (i + 1)\<rparr>
      | Exited \<Rightarrow> g)"

definition probe_init :: probe where
  "probe_init =
     \<lparr>loc = LoopHead 0, stats = Statistics_zero, printed = [], conns_closed = [],
      attempts = []\<rparr>"

text \<open>A run of the goroutine: one step for each element, in order.\<close>

fun loop_run :: "run_config \<Rightarrow> (bool \<times> probe_env) list \<Rightarrow> probe \<Rightarrow> probe" where
  "loop_run cfg [] g = g"
| "loop_run cfg (x # xs) g = loop_run cfg xs (loop_step cfg (fst x) (snd x) g)"

text \<open>The sequence numbers \<open>i, i + 1, \<dots>\<close>, \<open>n\<close> of them.\<close>

fun seq_from :: "go_int \<Rightarrow> nat \<Rightarrow> go_int list" where
  "seq_from i 0 = []"
| "seq_from i (Suc n) = i # seq_from (i + 1) n"

subsection \<open>The whole program: main, the goroutine and the signal\<close>

text \<open>
  The threads of \<^verbatim>\<open>main\<close> from line 398 on, interleaved by a schedule of actions:
  \<^item> \<open>Signal\<close>: the operating system delivers an interrupt to the channel of line 403;
  \<^item> \<open>MainStep pick\<close>: the main thread takes its next step: the \<^verbatim>\<open>select\<close> of lines 446
    to 452 (blocked while neither case is ready; \<open>pick\<close> chooses the interrupt when both
    are), then the snapshot of \<^verbatim>\<open>printTCPingStatistics\<close> (line 249), then its printing,
    after which \<^verbatim>\<open>main\<close> returns and the process ends;
  \<^item> \<open>ProbeStep e\<close>: the probe goroutine takes its next step, if the process still runs;
  \<^item> \<open>WaiterStep\<close>: the goroutine of lines 441 to 444 closes \<^verbatim>\<open>done\<close> once \<^verbatim>\<open>wg.Wait\<close>
    returns, that is once the probe goroutine has exited.
\<close>

datatype main_loc =
    MainSelect
  | MainSnapshot
  | MainPrint "int64 \<times> int64 \<times> float64 \<times> float64 \<times> float64"
  | MainReturned

record system =
  ctx_cancelled :: bool
  sig_pending :: bool
  done_closed :: bool
  main_at :: main_loc
  main_printed :: "msg styled list"
  probe :: probe

datatype action = Signal | MainStep bool | ProbeStep probe_env | WaiterStep

definition main_step :: "bool \<Rightarrow> system \<Rightarrow> system" where
  "main_step pick s =
     (case main_at s of
        MainSelect \<Rightarrow>
          if sig_pending s \<and> (pick \<or> \<not> done_closed s) then
            s\<lparr>sig_pending := False,
              main_printed := main_printed s @ [Plain MsgMainInterrupted],
              ctx_cancelled := True,
              main_at := MainSnapshot\<rparr>
          else if done_closed s then s\<lparr>main_at := MainSnapshot\<rparr>
          else s
      | MainSnapshot \<Rightarrow> s\<lparr>main_at := MainPrint (getStats (stats (probe s)))\<rparr>
      | MainPrint snap \<Rightarrow>
          s\<lparr>main_printed := main_printed s @ printSnapshot snap, main_at := MainReturned\<rparr>
      | MainReturned \<Rightarrow> s)"

definition sys_step :: "run_config \<Rightarrow> action \<Rightarrow> system \<Rightarrow> system" where
  "sys_step cfg a s =
     (case a of
        Signal \<Rightarrow> s\<lparr>sig_pending := True\<rparr>
      | MainStep pick \<Rightarrow> main_step pick s
      | ProbeStep e \<Rightarrow>
          if main_at s = MainReturned then s
          else s\<lparr>probe := loop_step cfg (ctx_cancelled s) e (probe s)\<rparr>
      | WaiterStep \<Rightarrow>
          if loc (probe s) = Exited then s\<lparr>done_closed := True\<rparr> else s)"

definition sys_init :: system where
  "sys_init =
     \<lparr>ctx_cancelled = False, sig_pending = False, done_closed = False,
      main_at = MainSelect, main_printed = [], probe = probe_init\<rparr>"

fun sys_run :: "run_config \<Rightarrow> action list \<Rightarrow> system \<Rightarrow> system" where
  "sys_run cfg [] s = s"
| "sys_run cfg (a # as) s = sys_run cfg as (sys_step cfg a s)"

subsection \<open>Concrete inputs\<close>

text \<open>
  The options as \<^verbatim>\<open>setupFlags\<close> leaves them when no flag is given, a target on the
  loopback address with a given count, and two environments of a step: a refused
  connection and an accepted one.
\<close>

definition default_opts :: Options where
  "default_opts =
     \<lparr>UseIPv4 = False, UseIPv6 = False, Count = 0, Interval = 1000, Timeout = 1000,
      ColorOutput = False, VerboseMode = False, ShowVersion = False, ShowHelp = False,
      Port = 0\<rparr>"

definition example_cfg :: "go_int \<Rightarrow> run_config" where
  "example_cfg n =
     \<lparr>cfg_opts = default_opts\<lparr>Count := n\<rparr>, cfg_address = ''127.0.0.1'',
      cfg_port = ''80'', cfg_ip = ''127.0.0.1''\<rparr>"

definition env_refused :: probe_env where
  "env_refused =
     \<lparr>env_dial = DialFailed ''connection refused'', env_elapsed = 1 / 2, env_pick_ctx = False\<rparr>"

definition env_connected :: probe_env where
  "env_connected =
     \<lparr>env_dial = Connected \<lparr>conn_id = 0, LocalAddr = ''127.0.0.1:50000''\<rparr>,
      env_elapsed = 3 / 2, env_pick_ctx = True\<rparr>"

subsection \<open>Facts about the aggregator\<close>

lemma updates_append: "updates (xs @ ys) s = updates ys (updates xs s)"
  by (induction xs arbitrary: s) simp_all

lemma updates_snoc: "updates (cs @ [c]) s = update (fst c) (snd c) (updates cs s)"
  by (simp add: updates_append)

lemma successes_snoc:
  "successes (cs @ [c]) = (if snd c then successes cs @ [fst c] else successes cs)"
  by (simp add: successes_def)

lemma sentCount_update: "sentCount (update e b s) = sentCount s + 1"
  by (simp add: update_def Let_def)

lemma respondedCount_update:
  "respondedCount (update e b s) = (if b then respondedCount s + 1 else respondedCount s)"
  by (simp add: update_def Let_def)

lemma totalTime_update:
  "totalTime (update e b s) = (if b then totalTime s + e else totalTime s)"
  by (simp add: update_def Let_def)

lemma sentCount_updates:
  "sentCount (updates cs s) = sentCount s + of_nat (length cs)"
  by (induction cs rule: rev_induct) (simp_all add: updates_snoc sentCount_update)

lemma respondedCount_updates:
  "respondedCount (updates cs s) = respondedCount s + of_nat (length (successes cs))"
  by (induction cs rule: rev_induct)
    (simp_all add: updates_snoc respondedCount_update successes_snoc successes_def)

lemma totalTime_updates:
  "totalTime (updates cs s) = totalTime s + sum_list (successes cs)"
  by (induction cs rule: rev_induct)
    (simp_all add: updates_snoc totalTime_update successes_snoc successes_def)

lemma sint_of_nat_small: "n < 2 ^ 63 \<Longrightarrow> sint (of_nat n :: 64 word) = int n"
  by (simp add: signed_of_nat signed_take_bit_int_eq_self)

lemma of_nat_eq_1_iff: "n < 2 ^ 64 \<Longrightarrow> (of_nat n :: 64 word) = 1 \<longleftrightarrow> n = 1"
  using word_of_nat_eq_iff [of n 1, where 'a = 64] by (simp add: take_bit_nat_eq_self)

lemma minTime_update:
  "minTime (update e b s) =
     (if \<not> b then minTime s else if respondedCount s + 1 = 1 then e else min e (minTime s))"
  by (auto simp add: update_def Let_def)

lemma maxTime_update:
  "maxTime (update e b s) =
     (if \<not> b then maxTime s else if respondedCount s + 1 = 1 then e else max e (maxTime s))"
  by (auto simp add: update_def Let_def)

lemma length_successes_le: "length (successes cs) \<le> length cs"
  by (simp add: successes_def)

lemma minmax_updates:
  "length cs < 2 ^ 64 \<Longrightarrow> e \<in> set (successes cs) \<Longrightarrow>
     minTime (updates cs Statistics_zero) \<le> e \<and> e \<le> maxTime (updates cs Statistics_zero)"
proof (induction cs arbitrary: e rule: rev_induct)
  case Nil
  then show ?case by (simp add: successes_def)
next
  case (snoc c cs)
  obtain x b where c: "c = (x, b)" by (cases c)
  from snoc.prems have len: "length cs < 2 ^ 64" by simp
  let ?s = "updates cs Statistics_zero"
  show ?case
  proof (cases b)
    case False
    with snoc c len show ?thesis
      by (simp add: updates_snoc successes_snoc minTime_update maxTime_update)
  next
    case True
    have k: "Suc (length (successes cs)) < 2 ^ 64"
      using snoc.prems(1) length_successes_le [of cs] by simp
    have rc: "respondedCount ?s + 1 = of_nat (Suc (length (successes cs)))"
      by (simp add: respondedCount_updates Statistics_zero_def)
    have first: "respondedCount ?s + 1 = 1 \<longleftrightarrow> successes cs = []"
      unfolding rc using of_nat_eq_1_iff [OF k] by simp
    from snoc.prems(2) c True have e: "e = x \<or> e \<in> set (successes cs)"
      by (auto simp add: successes_snoc)
    show ?thesis
    proof (cases "successes cs = []")
      case True
      with e first c \<open>b\<close> show ?thesis
        by (simp add: updates_snoc minTime_update maxTime_update)
    next
      case False
      then obtain y where y: "y \<in> set (successes cs)" by (cases "successes cs") auto
      have upd: "minTime (updates (cs @ [c]) Statistics_zero) = min x (minTime ?s)"
        "maxTime (updates (cs @ [c]) Statistics_zero) = max x (maxTime ?s)"
        using False first c \<open>b\<close> by (simp_all add: updates_snoc minTime_update maxTime_update)
      from snoc.IH [OF len y] have mm: "minTime ?s \<le> maxTime ?s" by simp
      from e show ?thesis
      proof
        assume "e = x"
        with mm show ?thesis unfolding upd by (simp add: min_def max_def)
      next
        assume "e \<in> set (successes cs)"
        from snoc.IH [OF len this] show ?thesis unfolding upd by (simp add: min_def max_def)
      qed
    qed
  qed
qed

lemma sint_succ: "sint (w :: 64 word) < 2 ^ 63 - 1 \<Longrightarrow> sint (w + 1) = sint w + 1"
  using sint_ge [of w] by (simp add: sint_word_ariths signed_take_bit_int_eq_self)

lemma sint_max_int64: "sint max_int64 = 2 ^ 63 - 1"
  by (simp add: max_int64_def)

lemma first_success_minmax:
  "successes pre = [] \<Longrightarrow>
     minTime (updates (pre @ [(e, True)]) Statistics_zero) = e \<and>
     maxTime (updates (pre @ [(e, True)]) Statistics_zero) = e"
  by (simp add: updates_snoc minTime_update maxTime_update respondedCount_updates
      Statistics_zero_def)

lemma update_preserves_inv:
  assumes inv: "Statistics_inv s" and room: "sentCount s <s max_int64"
  shows "Statistics_inv (update e b s) \<and>
         sentCount s \<le>s sentCount (update e b s) \<and>
         respondedCount s \<le>s respondedCount (update e b s)"
proof -
  from room have s: "sint (sentCount s) < 2 ^ 63 - 1"
    by (simp add: word_sless_alt sint_max_int64)
  from inv have rs: "sint (respondedCount s) \<le> sint (sentCount s)"
    by (simp add: Statistics_inv_def word_sle_eq)
  with s have r: "sint (respondedCount s) < 2 ^ 63 - 1" by simp
  note s1 = sint_succ [OF s] and r1 = sint_succ [OF r]
  have pos: "1 \<le>s respondedCount s + 1 \<Longrightarrow> respondedCount s \<noteq> 0 \<Longrightarrow> 1 \<le>s respondedCount s"
  proof -
    assume a: "1 \<le>s respondedCount s + 1" "respondedCount s \<noteq> 0"
    from a(1) have "0 \<le> sint (respondedCount s)" by (simp add: word_sle_eq r1)
    moreover from a(2) have "sint (respondedCount s) \<noteq> 0" by (simp add: signed_eq_0_iff)
    ultimately show ?thesis by (simp add: word_sle_eq)
  qed
  show ?thesis
  proof (cases b)
    case False
    with inv rs s1 show ?thesis
      by (simp add: Statistics_inv_def word_sle_eq sentCount_update respondedCount_update
          minTime_update maxTime_update)
  next
    case True
    have mm: "1 \<le>s respondedCount s + 1 \<Longrightarrow>
        minTime (update e True s) \<le> maxTime (update e True s)"
    proof (cases "respondedCount s = 0")
      case True
      then show ?thesis by (simp add: minTime_update maxTime_update)
    next
      case False
      assume "1 \<le>s respondedCount s + 1"
      from pos [OF this False] inv have "minTime s \<le> maxTime s"
        by (simp add: Statistics_inv_def)
      with False show ?thesis
        by (simp add: minTime_update maxTime_update min_def max_def)
    qed
    with True rs s1 r1 show ?thesis
      by (simp add: Statistics_inv_def word_sle_eq sentCount_update respondedCount_update)
  qed
qed

lemma inv_reachable:
  "length calls < 2 ^ 63 \<Longrightarrow> Statistics_inv (updates calls Statistics_zero)"
proof (induction calls rule: rev_induct)
  case Nil
  then show ?case by (simp add: Statistics_inv_def Statistics_zero_def)
next
  case (snoc c cs)
  then have inv: "Statistics_inv (updates cs Statistics_zero)" by simp
  from snoc.prems have "length cs < 2 ^ 63 - 1" by simp
  then have "sentCount (updates cs Statistics_zero) <s max_int64"
    by (simp add: sentCount_updates Statistics_zero_def word_sless_alt sint_max_int64
        sint_of_nat_small)
  from update_preserves_inv [OF inv this] show ?case by (simp add: updates_snoc)
qed

subsection \<open>The aggregator after a sequence of updates\<close>

text \<open>
  Claim C1, as amended. For every sequence of \<open>N < 2^63\<close> calls of \<^verbatim>\<open>update\<close> on the zero
  state, \<open>k\<close> of them successful: \<open>sentCount = N\<close>, \<open>respondedCount = k\<close>, \<open>totalTime\<close> is
  the sum of the elapsed values of the successful calls, \<open>minTime \<le> e \<le> maxTime\<close> for the
  elapsed value \<open>e\<close> of every successful call, and the average of the snapshot is
  \<open>totalTime / k\<close> when \<open>k > 0\<close> and \<open>0\<close> when \<open>k = 0\<close>. The first success of the sequence
  sets \<open>minTime\<close> and \<open>maxTime\<close> both to its own elapsed value. The bound on \<open>N\<close> is the
  range of the \<^verbatim>\<open>int64\<close> counters.
\<close>

theorem update_sequence_totals:
  "length calls < 2 ^ 63 \<Longrightarrow>
     sint (sentCount (updates calls Statistics_zero)) = int (length calls) \<and>
     sint (respondedCount (updates calls Statistics_zero)) = int (length (successes calls)) \<and>
     totalTime (updates calls Statistics_zero) = sum_list (successes calls) \<and>
     (\<forall>e \<in> set (successes calls).
        minTime (updates calls Statistics_zero) \<le> e \<and>
        e \<le> maxTime (updates calls Statistics_zero)) \<and>
     getStats (updates calls Statistics_zero) =
       (sentCount (updates calls Statistics_zero),
        respondedCount (updates calls Statistics_zero),
        minTime (updates calls Statistics_zero),
        maxTime (updates calls Statistics_zero),
        if successes calls = [] then 0
        else totalTime (updates calls Statistics_zero) / real (length (successes calls))) \<and>
     (\<forall>pre e post. calls = pre @ (e, True) # post \<and> successes pre = [] \<longrightarrow>
        minTime (updates (pre @ [(e, True)]) Statistics_zero) = e \<and>
        maxTime (updates (pre @ [(e, True)]) Statistics_zero) = e)"
proof -
  assume len: "length calls < 2 ^ 63"
  let ?s = "updates calls Statistics_zero"
  let ?k = "length (successes calls)"
  have k: "?k < 2 ^ 63" using len length_successes_le [of calls] by simp
  have sent: "sint (sentCount ?s) = int (length calls)"
    using len by (simp add: sentCount_updates Statistics_zero_def sint_of_nat_small)
  have resp: "sint (respondedCount ?s) = int ?k"
    using k by (simp add: respondedCount_updates Statistics_zero_def sint_of_nat_small)
  have total: "totalTime ?s = sum_list (successes calls)"
    by (simp add: totalTime_updates Statistics_zero_def)
  have mm: "\<forall>e \<in> set (successes calls). minTime ?s \<le> e \<and> e \<le> maxTime ?s"
    using len by (intro ballI minmax_updates) simp_all
  have avg: "getStats ?s =
      (sentCount ?s, respondedCount ?s, minTime ?s, maxTime ?s,
       if successes calls = [] then 0 else totalTime ?s / real ?k)"
    using resp by (simp add: getStats_def word_sless_alt)
  have first: "\<forall>pre e post. calls = pre @ (e, True) # post \<and> successes pre = [] \<longrightarrow>
        minTime (updates (pre @ [(e, True)]) Statistics_zero) = e \<and>
        maxTime (updates (pre @ [(e, True)]) Statistics_zero) = e"
    using first_success_minmax by blast
  from sent resp total mm avg first show ?thesis by blast
qed

text \<open>
  The theorem at three calls, the first and the last successful: the bound holds, and
  the snapshot is 3 sent, 2 responded, range 2 to 3, average 5/2.
\<close>

theorem update_sequence_totals_witness:
  "length [(3, True), (7, False), (2 :: float64, True)] < 2 ^ 63 \<and>
   sint (sentCount (updates [(3, True), (7, False), (2, True)] Statistics_zero)) = 3 \<and>
   sint (respondedCount (updates [(3, True), (7, False), (2, True)] Statistics_zero)) = 2 \<and>
   getStats (updates [(3, True), (7, False), (2, True)] Statistics_zero) = (3, 2, 2, 3, 5 / 2)"
  using update_sequence_totals [of "[(3, True), (7, False), (2, True)]"]
  by (simp add: update_def getStats_def Statistics_zero_def word_sless_alt)

text \<open>
  Without the bound the claim fails: after \<open>2^63\<close> calls the counter \<^verbatim>\<open>sentCount\<close> has
  wrapped around to \<open>-2^63\<close> and is not the number of calls.
\<close>

theorem update_sequence_overflow:
  "sint (sentCount (updates (replicate (2 ^ 63) (0, False)) Statistics_zero))
     \<noteq> int (length (replicate (2 ^ 63) (0 :: float64, False)))"
  by (simp add: sentCount_updates Statistics_zero_def)

subsection \<open>The invariant of the aggregator\<close>

text \<open>
  Claim C4, as amended. The zero state satisfies the invariant \<open>respondedCount \<le>
  sentCount\<close> and \<open>minTime \<le> maxTime\<close> whenever \<open>respondedCount \<ge> 1\<close>; so does every state
  reached from it by fewer than \<open>2^63\<close> calls of \<^verbatim>\<open>update\<close>; and a call of \<^verbatim>\<open>update\<close> on a
  state that satisfies the invariant and whose \<open>sentCount\<close> is below the largest \<^verbatim>\<open>int64\<close>
  preserves the invariant and decreases neither counter.
\<close>

theorem Statistics_inv_preserved:
  "Statistics_inv Statistics_zero \<and>
   (length calls < 2 ^ 63 \<longrightarrow> Statistics_inv (updates calls Statistics_zero)) \<and>
   (Statistics_inv s \<and> sentCount s <s max_int64 \<longrightarrow>
      Statistics_inv (update e b s) \<and>
      sentCount s \<le>s sentCount (update e b s) \<and>
      respondedCount s \<le>s respondedCount (update e b s))"
  using inv_reachable [of calls] update_preserves_inv [of s e b]
  by (simp add: Statistics_inv_def Statistics_zero_def)

text \<open>
  The theorem at a state reached by two calls, one successful, and a further
  successful call on it: the hypotheses hold there, and so does the conclusion.
\<close>

theorem Statistics_inv_preserved_witness:
  "length [(4 :: float64, True), (9, False)] < 2 ^ 63 \<and>
   Statistics_inv (updates [(4, True), (9, False)] Statistics_zero) \<and>
   sentCount (updates [(4, True), (9, False)] Statistics_zero) <s max_int64 \<and>
   Statistics_inv (update 1 True (updates [(4, True), (9, False)] Statistics_zero)) \<and>
   sentCount (updates [(4, True), (9, False)] Statistics_zero)
     \<le>s sentCount (update 1 True (updates [(4, True), (9, False)] Statistics_zero)) \<and>
   respondedCount (updates [(4, True), (9, False)] Statistics_zero)
     \<le>s respondedCount (update 1 True (updates [(4, True), (9, False)] Statistics_zero))"
  using Statistics_inv_preserved [of "[(4, True), (9, False)]"
      "updates [(4, True), (9, False)] Statistics_zero" 1 True]
  by (simp add: update_def Statistics_zero_def word_sless_alt max_int64_def)

text \<open>
  Without the bounds the claim fails: the state reached by \<open>2^63 - 1\<close> failed calls has
  \<open>sentCount\<close> at the largest \<^verbatim>\<open>int64\<close>, and one more call decreases the counter.
\<close>

theorem sentCount_decreases_at_overflow:
  "\<not> (sentCount (updates (replicate (2 ^ 63 - 1) (0, False)) Statistics_zero)
      \<le>s sentCount (update 0 False
           (updates (replicate (2 ^ 63 - 1) (0, False)) Statistics_zero)))"
  by (simp add: sentCount_updates sentCount_update Statistics_zero_def word_sle_eq)

subsection \<open>Facts about lists, words and the loop\<close>

lemma find_first:
  "xs = pre @ x # post \<Longrightarrow> P x \<Longrightarrow> \<forall>y \<in> set pre. \<not> P y \<Longrightarrow> find P xs = Some x"
  by (induction pre arbitrary: xs) auto

lemma find_none: "\<forall>y \<in> set xs. \<not> P y \<Longrightarrow> find P xs = None"
  by (simp add: find_None_iff)

lemma pingOnce_closes_otherwise:
  "ctxErr \<noteq> Some Canceled \<Longrightarrow>
     ping_closed (pingOnce ctxErr d elapsed address port st seq ip opts) = opened d"
  by (cases d) (simp_all add: pingOnce_def)

lemma loop_step_LoopHead:
  "loc g = LoopHead i \<Longrightarrow>
     loop_step cfg c e g =
       (if Count (cfg_opts cfg) = 0 \<or> i <s Count (cfg_opts cfg) then
          (if c then g\<lparr>loc := Exited\<rparr> else g\<lparr>loc := InPing i, attempts := attempts g @ [i]\<rparr>)
        else g\<lparr>loc := Exited\<rparr>)"
  by (simp add: loop_step_def)

lemma loop_step_InPing_free:
  "loc g = InPing i \<Longrightarrow>
     loop_step cfg False e g = g\<lparr>loc := Recording i (env_dial e) (env_elapsed e)\<rparr>"
  by (simp add: loop_step_def)

lemma loop_step_InPing_cancelled:
  "loc g = InPing i \<Longrightarrow>
     loop_step cfg True e g =
       g\<lparr>printed := printed g @ [infoText MsgAttemptInterrupted (ColorOutput (cfg_opts cfg))],
         loc := after_ping cfg i\<rparr>"
  by (simp add: loop_step_def apply_ping_def pingOnce_def)

lemma loop_step_Recording:
  "loc g = Recording i d t \<Longrightarrow>
     loc (loop_step cfg c e g) = after_ping cfg i \<and>
     attempts (loop_step cfg c e g) = attempts g"
  by (simp add: loop_step_def apply_ping_def)

lemma loop_step_Waiting:
  "loc g = Waiting i \<Longrightarrow>
     loop_step cfg c e g =
       (if c \<and> env_pick_ctx e then g\<lparr>loc := Exited\<rparr> else g\<lparr>loc := LoopHead (i + 1)\<rparr>)"
  by (simp add: loop_step_def)

lemma loop_step_Exited: "loc g = Exited \<Longrightarrow> loop_step cfg c e g = g"
  by (simp add: loop_step_def)

lemma loop_run_Exited: "loc g = Exited \<Longrightarrow> loop_run cfg xs g = g"
  by (induction xs) (simp_all add: loop_step_Exited)

lemma loop_run_append: "loop_run cfg (xs @ ys) g = loop_run cfg ys (loop_run cfg xs g)"
  by (induction xs arbitrary: g) simp_all

text \<open>One full iteration without cancellation, not the last one.\<close>

lemma iteration_free:
  assumes "loc g = LoopHead i" "Count (cfg_opts cfg) = 0 \<or> i <s Count (cfg_opts cfg)"
    and "\<not> (Count (cfg_opts cfg) \<noteq> 0 \<and> i = Count (cfg_opts cfg) - 1)"
  shows "loc (loop_run cfg [(False, e1), (False, e2), (False, e3), (False, e4)] g)
           = LoopHead (i + 1) \<and>
         attempts (loop_run cfg [(False, e1), (False, e2), (False, e3), (False, e4)] g)
           = attempts g @ [i]"
  using assms
  by (simp add: loop_step_def apply_ping_def after_ping_def)

lemma last_iteration_free:
  assumes "loc g = LoopHead i" "i <s Count (cfg_opts cfg)" "i = Count (cfg_opts cfg) - 1"
    "Count (cfg_opts cfg) \<noteq> 0"
  shows "loc (loop_run cfg [(False, e1), (False, e2), (False, e3)] g) = Exited \<and>
         attempts (loop_run cfg [(False, e1), (False, e2), (False, e3)] g) = attempts g @ [i]"
  using assms
  by (simp add: loop_step_def apply_ping_def after_ping_def)

lemma four_free:
  assumes "length ys = 4" "\<forall>x \<in> set ys. \<not> fst x"
  obtains e1 e2 e3 e4 where "ys = [(False, e1), (False, e2), (False, e3), (False, e4)]"
proof -
  from assms(1) obtain a b c d where ys: "ys = [a, b, c, d]"
    by (auto simp add: length_Suc_conv eval_nat_numeral)
  with assms(2) have "a = (False, snd a)" "b = (False, snd b)" "c = (False, snd c)"
    "d = (False, snd d)"
    by (simp_all add: prod_eq_iff)
  with ys have "ys = [(False, snd a), (False, snd b), (False, snd c), (False, snd d)]"
    by simp
  then show thesis by (rule that)
qed

lemma three_free:
  assumes "length ys = 3" "\<forall>x \<in> set ys. \<not> fst x"
  obtains e1 e2 e3 where "ys = [(False, e1), (False, e2), (False, e3)]"
proof -
  from assms(1) obtain a b c where ys: "ys = [a, b, c]"
    by (auto simp add: length_Suc_conv eval_nat_numeral)
  with assms(2) have "a = (False, snd a)" "b = (False, snd b)" "c = (False, snd c)"
    by (simp_all add: prod_eq_iff)
  with ys have "ys = [(False, snd a), (False, snd b), (False, snd c)]"
    by simp
  then show thesis by (rule that)
qed

lemma sint_pred: "- (2 ^ 63) < sint (w :: 64 word) \<Longrightarrow> sint (w - 1) = sint w - 1"
  using sint_lt [of w] by (simp add: sint_word_ariths signed_take_bit_int_eq_self)

lemma sint_inj: "sint (a :: 64 word) = sint b \<Longrightarrow> a = b"
  by (simp add: signed_word_eqI)

lemma bounded_run:
  "loc g = LoopHead i \<Longrightarrow> 0 \<le> sint i \<Longrightarrow> sint i < sint (Count (cfg_opts cfg)) \<Longrightarrow>
     k = nat (sint (Count (cfg_opts cfg)) - sint i) \<Longrightarrow>
     \<forall>x \<in> set xs. \<not> fst x \<Longrightarrow> 4 * k - 1 \<le> length xs \<Longrightarrow>
     loc (loop_run cfg xs g) = Exited \<and>
     attempts (loop_run cfg xs g) = attempts g @ seq_from i k"
proof (induction k arbitrary: g i xs)
  case 0
  then show ?case by simp
next
  case (Suc k)
  let ?n = "Count (cfg_opts cfg)"
  have lt: "i <s ?n" using Suc.prems(3) by (simp add: word_sless_alt)
  have n0: "?n \<noteq> 0" using Suc.prems(2,3) by auto
  have npos: "- (2 ^ 63) < sint ?n" using Suc.prems(2,3) by simp
  show ?case
  proof (cases "k = 0")
    case True
    with Suc.prems(4) have "sint i = sint ?n - 1" by simp
    then have last: "i = ?n - 1" using sint_pred [OF npos] by (simp add: sint_inj)
    from True Suc.prems(6) have "3 \<le> length xs" by simp
    then have l3: "length (take 3 xs) = 3" by simp
    have f3: "\<forall>x \<in> set (take 3 xs). \<not> fst x"
      using Suc.prems(5) by (meson in_set_takeD)
    obtain e1 e2 e3 where t3: "take 3 xs = [(False, e1), (False, e2), (False, e3)]"
      using three_free [OF l3 f3] by blast
    have split: "xs = [(False, e1), (False, e2), (False, e3)] @ drop 3 xs"
      using t3 append_take_drop_id [of 3 xs] by simp
    from last_iteration_free [OF Suc.prems(1) lt last n0, of e1 e2 e3]
    have fin: "loc (loop_run cfg [(False, e1), (False, e2), (False, e3)] g) = Exited"
      and att: "attempts (loop_run cfg [(False, e1), (False, e2), (False, e3)] g) = attempts g @ [i]"
      by simp_all
    have "loop_run cfg xs g = loop_run cfg [(False, e1), (False, e2), (False, e3)] g"
      by (subst split, subst loop_run_append) (rule loop_run_Exited [OF fin])
    with fin att True show ?thesis by simp
  next
    case False
    with Suc.prems(4) have more: "sint i + 1 < sint ?n" by simp
    have notlast: "i \<noteq> ?n - 1"
    proof
      assume "i = ?n - 1"
      then have "sint i = sint ?n - 1" using sint_pred [OF npos] by simp
      with more show False by simp
    qed
    have si: "sint (i + 1) = sint i + 1"
      using sint_lt [of ?n] more by (intro sint_succ) simp
    from False Suc.prems(6) have "4 \<le> length xs" by simp
    then have l4: "length (take 4 xs) = 4" by simp
    have f4: "\<forall>x \<in> set (take 4 xs). \<not> fst x"
      using Suc.prems(5) by (meson in_set_takeD)
    obtain e1 e2 e3 e4 where
      t4: "take 4 xs = [(False, e1), (False, e2), (False, e3), (False, e4)]"
      using four_free [OF l4 f4] by blast
    have split: "xs = [(False, e1), (False, e2), (False, e3), (False, e4)] @ drop 4 xs"
      using t4 append_take_drop_id [of 4 xs] by simp
    let ?g = "loop_run cfg [(False, e1), (False, e2), (False, e3), (False, e4)] g"
    from iteration_free [OF Suc.prems(1), of cfg e1 e2 e3 e4] lt notlast
    have loc': "loc ?g = LoopHead (i + 1)" and att: "attempts ?g = attempts g @ [i]"
      by simp_all
    have run: "loop_run cfg xs g = loop_run cfg (drop 4 xs) ?g"
      by (subst split, subst loop_run_append) simp
    have f': "\<forall>x \<in> set (drop 4 xs). \<not> fst x"
      using Suc.prems(5) by (meson in_set_dropD)
    have len': "4 * k - 1 \<le> length (drop 4 xs)"
      using Suc.prems(6) by simp
    have k': "k = nat (sint ?n - sint (i + 1))"
      using Suc.prems(4) si by simp
    from Suc.IH [OF loc' _ _ k' f' len'] si Suc.prems(2) more
    have "loc (loop_run cfg (drop 4 xs) ?g) = Exited \<and>
          attempts (loop_run cfg (drop 4 xs) ?g) = attempts ?g @ seq_from (i + 1) k"
      by simp
    with run att show ?thesis by simp
  qed
qed

lemma unbounded_run:
  "Count (cfg_opts cfg) = 0 \<Longrightarrow> loc g = LoopHead i \<Longrightarrow> \<forall>x \<in> set xs. \<not> fst x \<Longrightarrow>
     length xs = 4 * m \<Longrightarrow>
     loc (loop_run cfg xs g) = LoopHead (i + of_nat m) \<and>
     attempts (loop_run cfg xs g) = attempts g @ seq_from i m"
proof (induction m arbitrary: g i xs)
  case 0
  then show ?case by simp
next
  case (Suc m)
  from Suc.prems(4) have l4: "length (take 4 xs) = 4" by simp
  have f4: "\<forall>x \<in> set (take 4 xs). \<not> fst x"
    using Suc.prems(3) by (meson in_set_takeD)
  obtain e1 e2 e3 e4 where
    t4: "take 4 xs = [(False, e1), (False, e2), (False, e3), (False, e4)]"
    using four_free [OF l4 f4] by blast
  have split: "xs = [(False, e1), (False, e2), (False, e3), (False, e4)] @ drop 4 xs"
    using t4 append_take_drop_id [of 4 xs] by simp
  let ?g = "loop_run cfg [(False, e1), (False, e2), (False, e3), (False, e4)] g"
  from iteration_free [OF Suc.prems(2), of cfg e1 e2 e3 e4] Suc.prems(1)
  have loc': "loc ?g = LoopHead (i + 1)" and att: "attempts ?g = attempts g @ [i]"
    by simp_all
  have run: "loop_run cfg xs g = loop_run cfg (drop 4 xs) ?g"
    by (subst split, subst loop_run_append) simp
  have f': "\<forall>x \<in> set (drop 4 xs). \<not> fst x"
    using Suc.prems(3) by (meson in_set_dropD)
  have len': "length (drop 4 xs) = 4 * m"
    using Suc.prems(4) by simp
  from Suc.IH [OF Suc.prems(1) loc' f' len'] run att
  show ?case by (simp add: add.assoc)
qed

lemma unbounded_never_exits:
  "Count (cfg_opts cfg) = 0 \<Longrightarrow> loc g \<noteq> Exited \<Longrightarrow> \<forall>x \<in> set xs. \<not> fst x \<Longrightarrow>
     loc (loop_run cfg xs g) \<noteq> Exited"
proof (induction xs arbitrary: g)
  case Nil
  then show ?case by simp
next
  case (Cons x xs)
  have "loc (loop_step cfg (fst x) (snd x) g) \<noteq> Exited"
    using Cons.prems
    by (cases "loc g") (simp_all add: loop_step_def apply_ping_def after_ping_def)
  with Cons show ?case by simp
qed

lemma seq_from_map: "seq_from i k = map (\<lambda>j. i + of_nat j) [0..<k]"
proof (induction k arbitrary: i)
  case 0
  then show ?case by simp
next
  case (Suc k)
  have "map (\<lambda>j. i + of_nat j) [0..<Suc k] = i # map (\<lambda>j. i + of_nat (Suc j)) [0..<k]"
    by (simp only: map_upt_Suc) simp
  with Suc [of "i + 1"] show ?case by (simp add: add.assoc add.commute)
qed

lemma quiet_after_cancel:
  "loc g = Waiting i \<or> loc g = LoopHead i \<or> loc g = Exited \<Longrightarrow> \<forall>x \<in> set xs. fst x \<Longrightarrow>
     stats (loop_run cfg xs g) = stats g \<and>
     printed (loop_run cfg xs g) = printed g \<and>
     attempts (loop_run cfg xs g) = attempts g \<and>
     conns_closed (loop_run cfg xs g) = conns_closed g \<and>
     (loc g = Exited \<or> loc g = LoopHead i \<and> 1 \<le> length xs \<or> 2 \<le> length xs
        \<longrightarrow> loc (loop_run cfg xs g) = Exited)"
proof (induction xs arbitrary: g i)
  case Nil
  then show ?case by simp
next
  case (Cons x xs)
  let ?g = "loop_step cfg (fst x) (snd x) g"
  from Cons.prems(2) have c: "fst x" by simp
  from Cons.prems(1) c have same: "stats ?g = stats g" "printed ?g = printed g"
    "attempts ?g = attempts g" "conns_closed ?g = conns_closed g"
    by (auto simp add: loop_step_def)
  from Cons.prems(1) c have next_loc:
    "loc ?g = Exited \<or> loc g = Waiting i \<and> loc ?g = LoopHead (i + 1)"
    by (auto simp add: loop_step_def split: if_splits)
  then have pre: "loc ?g = Waiting (i + 1) \<or> loc ?g = LoopHead (i + 1) \<or> loc ?g = Exited"
    by auto
  from Cons.prems(2) have rest: "\<forall>x \<in> set xs. fst x" by simp
  note IH = Cons.IH [OF pre rest]
  from next_loc Cons.prems(1) IH same show ?case by auto
qed

lemma cancel_is_permanent: "ctx_cancelled s \<Longrightarrow> ctx_cancelled (sys_step cfg a s)"
  by (cases a; cases "main_at s") (simp_all add: sys_step_def main_step_def)

subsection \<open>The snapshot and the probe goroutine\<close>

text \<open>
  Claim C2 says that after an interrupt the probe goroutine has exited before the
  snapshot is taken, so that no update of an attempt in flight races the snapshot. The
  source does not wait on \<^verbatim>\<open>done\<close> in the interrupt case of its \<^verbatim>\<open>select\<close>. In the
  schedule below the goroutine calls \<^verbatim>\<open>pingOnce\<close>, the dial succeeds and line 218 sees
  no cancellation; the signal arrives; the main thread cancels and takes its snapshot
  (all zero) while the goroutine is still between line 218 and line 225; the goroutine
  then records the attempt (\<open>sentCount = 1\<close>); and the summary printed is the header
  alone.
\<close>

theorem snapshot_before_exit:
  "main_at (sys_run (example_cfg 0)
      [ProbeStep env_connected, ProbeStep env_connected, Signal, MainStep True, MainStep True]
      sys_init) = MainPrint (0, 0, 0, 0, 0) \<and>
   loc (probe (sys_run (example_cfg 0)
      [ProbeStep env_connected, ProbeStep env_connected, Signal, MainStep True, MainStep True]
      sys_init)) = Recording 0 (env_dial env_connected) (env_elapsed env_connected) \<and>
   sentCount (stats (probe (sys_run (example_cfg 0)
      [ProbeStep env_connected, ProbeStep env_connected, Signal, MainStep True, MainStep True,
       ProbeStep env_connected, MainStep True]
      sys_init))) = 1 \<and>
   main_printed (sys_run (example_cfg 0)
      [ProbeStep env_connected, ProbeStep env_connected, Signal, MainStep True, MainStep True,
       ProbeStep env_connected, MainStep True]
      sys_init) = [Plain MsgMainInterrupted, Plain MsgStatsHeader]"
  by (simp add: sys_step_def main_step_def sys_init_def probe_init_def loop_step_def
      example_cfg_def default_opts_def env_connected_def apply_ping_def after_ping_def
      pingOnce_def update_def getStats_def Statistics_zero_def printSnapshot_def
      word_sless_alt)

subsection \<open>Connections of an interrupted attempt\<close>

text \<open>
  Claim C3 says that every path of \<^verbatim>\<open>pingOnce\<close> closes a connection it has opened. On
  the path where the dial has returned a connection and \<^verbatim>\<open>ctx.Err()\<close> is
  \<^verbatim>\<open>context.Canceled\<close> at line 218, the function returns at line 221, before the
  \<^verbatim>\<open>defer conn.Close()\<close> of line 238: no connection is closed, and one is open.
\<close>

theorem pingOnce_cancelled_leaks:
  "ping_closed (pingOnce (Some Canceled) (Connected c) elapsed address port st seq ip opts) = [] \<and>
   opened (Connected c) = [c]"
  by (simp add: pingOnce_def)

subsection \<open>The number of attempts\<close>

text \<open>
  Claim C5. With a count \<open>n > 0\<close> and no cancellation, every run of the loop of at least
  \<open>4n - 1\<close> steps has ended, and \<^verbatim>\<open>pingOnce\<close> has been called exactly with the sequence
  numbers \<open>0, \<dots>, n - 1\<close>. With count \<open>0\<close> and no cancellation the loop has not ended after
  any number of steps, and after \<open>4m\<close> steps it has made the \<open>m\<close> attempts \<open>0, \<dots>, m - 1\<close>.
\<close>

theorem probe_loop_count:
  "(0 <s Count (cfg_opts cfg) \<and> (\<forall>x \<in> set xs. \<not> fst x) \<and>
      4 * nat (sint (Count (cfg_opts cfg))) - 1 \<le> length xs \<longrightarrow>
      loc (loop_run cfg xs probe_init) = Exited \<and>
      attempts (loop_run cfg xs probe_init)
        = map of_nat [0..<nat (sint (Count (cfg_opts cfg)))]) \<and>
   (Count (cfg_opts cfg) = 0 \<and> (\<forall>x \<in> set xs. \<not> fst x) \<longrightarrow>
      loc (loop_run cfg xs probe_init) \<noteq> Exited \<and>
      (length xs = 4 * m \<longrightarrow> attempts (loop_run cfg xs probe_init) = map of_nat [0..<m]))"
proof -
  have init: "loc probe_init = LoopHead 0" "attempts probe_init = []"
    by (simp_all add: probe_init_def)
  have bounded: "loc (loop_run cfg xs probe_init) = Exited \<and>
      attempts (loop_run cfg xs probe_init)
        = map of_nat [0..<nat (sint (Count (cfg_opts cfg)))]"
    if "0 <s Count (cfg_opts cfg)" "\<forall>x \<in> set xs. \<not> fst x"
      "4 * nat (sint (Count (cfg_opts cfg))) - 1 \<le> length xs"
  proof -
    from that(1) have pos: "sint (0 :: go_int) < sint (Count (cfg_opts cfg))"
      by (simp add: word_sless_alt)
    from bounded_run [OF init(1) _ pos _ that(2), of "nat (sint (Count (cfg_opts cfg)))"]
      that(3) init(2)
    show ?thesis by (simp add: seq_from_map)
  qed
  have unbounded: "loc (loop_run cfg xs probe_init) \<noteq> Exited \<and>
      (length xs = 4 * m \<longrightarrow> attempts (loop_run cfg xs probe_init) = map of_nat [0..<m])"
    if "Count (cfg_opts cfg) = 0" "\<forall>x \<in> set xs. \<not> fst x"
  proof -
    have "loc (loop_run cfg xs probe_init) \<noteq> Exited"
      using unbounded_never_exits [OF that(1) _ that(2), of probe_init] init by simp
    moreover have "attempts (loop_run cfg xs probe_init) = map of_nat [0..<m]"
      if "length xs = 4 * m"
      using unbounded_run [OF \<open>Count (cfg_opts cfg) = 0\<close> init(1)
          \<open>\<forall>x \<in> set xs. \<not> fst x\<close> that] init(2)
      by (simp add: seq_from_map)
    ultimately show ?thesis by simp
  qed
  from bounded unbounded show ?thesis by blast
qed

text \<open>
  The theorem at count 2 with seven steps on a target that refuses, and at count 0 with
  four steps.
\<close>

theorem probe_loop_count_witness:
  "0 <s Count (cfg_opts (example_cfg 2)) \<and>
   fst (False, env_refused) = False \<and>
   4 * nat (sint (Count (cfg_opts (example_cfg 2)))) - 1 = 7 \<and>
   loc (loop_run (example_cfg 2)
      [(False, env_refused), (False, env_refused), (False, env_refused),
       (False, env_refused), (False, env_refused), (False, env_refused),
       (False, env_refused)] probe_init) = Exited \<and>
   attempts (loop_run (example_cfg 2)
      [(False, env_refused), (False, env_refused), (False, env_refused),
       (False, env_refused), (False, env_refused), (False, env_refused),
       (False, env_refused)] probe_init) = [0, 1] \<and>
   Count (cfg_opts (example_cfg 0)) = 0 \<and>
   loc (loop_run (example_cfg 0)
      [(False, env_refused), (False, env_refused), (False, env_refused),
       (False, env_refused)] probe_init) \<noteq> Exited \<and>
   attempts (loop_run (example_cfg 0)
      [(False, env_refused), (False, env_refused), (False, env_refused),
       (False, env_refused)] probe_init) = [0]"
  using probe_loop_count [of "example_cfg 2"
      "[(False, env_refused), (False, env_refused), (False, env_refused),
        (False, env_refused), (False, env_refused), (False, env_refused),
        (False, env_refused)]" 0]
    probe_loop_count [of "example_cfg 0"
      "[(False, env_refused), (False, env_refused), (False, env_refused),
        (False, env_refused)]" 1]
  by (simp add: example_cfg_def default_opts_def word_sless_alt loop_step_def
      probe_init_def apply_ping_def after_ping_def pingOnce_def env_refused_def)

subsection \<open>An attempt that observes cancellation\<close>

text \<open>
  Claim C6. When \<^verbatim>\<open>ctx.Err()\<close> is \<^verbatim>\<open>context.Canceled\<close> at line 218, \<^verbatim>\<open>pingOnce\<close> leaves the
  statistics as they are and prints the interruption notice and nothing else. In the
  loop, an attempt in flight that observes the cancellation changes no statistics,
  prints the notice alone, is followed by no further attempt, and the loop has ended
  at the latest two steps after the attempt returns.
\<close>

theorem cancelled_attempt:
  "pingOnce (Some Canceled) d t address port st seq ip opts =
     \<lparr>ping_stats = st,
      ping_printed = [infoText MsgAttemptInterrupted (ColorOutput opts)],
      ping_closed = []\<rparr> \<and>
   (loc g = InPing i \<and> xs \<noteq> [] \<and> (\<forall>x \<in> set xs. fst x) \<longrightarrow>
      stats (loop_run cfg xs g) = stats g \<and>
      attempts (loop_run cfg xs g) = attempts g \<and>
      printed (loop_run cfg xs g) =
        printed g @ [infoText MsgAttemptInterrupted (ColorOutput (cfg_opts cfg))] \<and>
      (3 \<le> length xs \<longrightarrow> loc (loop_run cfg xs g) = Exited))"
proof -
  have call: "pingOnce (Some Canceled) d t address port st seq ip opts =
     \<lparr>ping_stats = st,
      ping_printed = [infoText MsgAttemptInterrupted (ColorOutput opts)],
      ping_closed = []\<rparr>"
    by (simp add: pingOnce_def)
  have run: "stats (loop_run cfg xs g) = stats g \<and>
     attempts (loop_run cfg xs g) = attempts g \<and>
     printed (loop_run cfg xs g) =
       printed g @ [infoText MsgAttemptInterrupted (ColorOutput (cfg_opts cfg))] \<and>
     (3 \<le> length xs \<longrightarrow> loc (loop_run cfg xs g) = Exited)"
    if at: "loc g = InPing i" and ne: "xs \<noteq> []" and c: "\<forall>x \<in> set xs. fst x"
  proof -
    from ne obtain x ys where xs: "xs = x # ys" by (cases xs) auto
    with c have cx: "fst x" and cys: "\<forall>x \<in> set ys. fst x" by simp_all
    let ?g = "loop_step cfg (fst x) (snd x) g"
    have g1: "?g =
        g\<lparr>printed := printed g @ [infoText MsgAttemptInterrupted (ColorOutput (cfg_opts cfg))],
          loc := after_ping cfg i\<rparr>"
      using cx loop_step_InPing_cancelled [OF at] by simp
    then have l1: "loc ?g = Waiting i \<or> loc ?g = LoopHead i \<or> loc ?g = Exited"
      by (simp add: after_ping_def)
    from quiet_after_cancel [OF l1 cys, of cfg] g1 xs
    show ?thesis by auto
  qed
  from call run show ?thesis by blast
qed

text \<open>
  The theorem at the first attempt of an unbounded run: the dial returns a connection,
  the context is cancelled by then and stays so for three steps.
\<close>

theorem cancelled_attempt_witness:
  "loc (loop_step (example_cfg 0) False env_connected probe_init) = InPing 0 \<and>
   [(True, env_connected), (True, env_connected), (True, env_connected)] \<noteq> [] \<and>
   fst (True, env_connected) = True \<and>
   stats (loop_run (example_cfg 0)
      [(True, env_connected), (True, env_connected), (True, env_connected)]
      (loop_step (example_cfg 0) False env_connected probe_init)) = Statistics_zero \<and>
   printed (loop_run (example_cfg 0)
      [(True, env_connected), (True, env_connected), (True, env_connected)]
      (loop_step (example_cfg 0) False env_connected probe_init))
     = [Plain MsgAttemptInterrupted] \<and>
   loc (loop_run (example_cfg 0)
      [(True, env_connected), (True, env_connected), (True, env_connected)]
      (loop_step (example_cfg 0) False env_connected probe_init)) = Exited"
  using cancelled_attempt [where g = "loop_step (example_cfg 0) False env_connected probe_init"
      and i = 0 and cfg = "example_cfg 0"
      and xs = "[(True, env_connected), (True, env_connected), (True, env_connected)]"]
  by (simp add: loop_step_def probe_init_def example_cfg_def default_opts_def
      infoText_def colorText_def apply_ping_def after_ping_def pingOnce_def
      env_connected_def)

subsection \<open>Literal addresses\<close>

text \<open>
  Claim C7. For a host that parses as a literal IP, \<^verbatim>\<open>resolveAddress\<close> returns a
  family-mismatch error if IPv4 is requested and the literal is not IPv4, or if IPv6 is
  requested and the literal is IPv4; otherwise it returns the text of an IPv4 literal
  as it is and the text of an IPv6 literal in square brackets.
\<close>

theorem resolveAddress_literal:
  "ParseIP address = Some ip \<Longrightarrow>
     (useIPv4 \<and> \<not> To4 ip \<longrightarrow>
        resolveAddress ParseIP LookupIP address useIPv4 useIPv6 = Inl (NotIPv4Address address)) \<and>
     (\<not> (useIPv4 \<and> \<not> To4 ip) \<and> useIPv6 \<and> To4 ip \<longrightarrow>
        resolveAddress ParseIP LookupIP address useIPv4 useIPv6 = Inl (NotIPv6Address address)) \<and>
     (\<not> (useIPv4 \<and> \<not> To4 ip) \<and> \<not> (useIPv6 \<and> To4 ip) \<longrightarrow>
        resolveAddress ParseIP LookupIP address useIPv4 useIPv6 =
          Inr (if To4 ip then String ip else ''['' @ String ip @ '']''))"
  by (simp add: resolveAddress_def bracketed_def)

text \<open>
  The theorem at the literal \<^verbatim>\<open>127.0.0.1\<close>: returned unmodified when IPv4 is requested,
  a mismatch when IPv6 is requested.
\<close>

theorem resolveAddress_literal_witness:
  "(\<lambda>h. if h = ''127.0.0.1'' then Some (IP True ''127.0.0.1'') else None) ''127.0.0.1''
      = Some (IP True ''127.0.0.1'') \<and>
   resolveAddress (\<lambda>h. if h = ''127.0.0.1'' then Some (IP True ''127.0.0.1'') else None)
      (\<lambda>h. Inl ''no such host'') ''127.0.0.1'' True False = Inr ''127.0.0.1'' \<and>
   resolveAddress (\<lambda>h. if h = ''127.0.0.1'' then Some (IP True ''127.0.0.1'') else None)
      (\<lambda>h. Inl ''no such host'') ''127.0.0.1'' False True = Inl (NotIPv6Address ''127.0.0.1'')"
  using resolveAddress_literal [of "\<lambda>h. if h = ''127.0.0.1'' then Some (IP True ''127.0.0.1'') else None"
      "''127.0.0.1''" "IP True ''127.0.0.1''" True "\<lambda>h. Inl ''no such host''" False]
    resolveAddress_literal [of "\<lambda>h. if h = ''127.0.0.1'' then Some (IP True ''127.0.0.1'') else None"
      "''127.0.0.1''" "IP True ''127.0.0.1''" False "\<lambda>h. Inl ''no such host''" True]
  by simp

subsection \<open>Looked-up addresses\<close>

text \<open>
  Claim C8. For a host that is not a literal, a lookup error and an empty candidate
  list are resolution failures. On a non-empty list: when IPv4 is requested the result
  is the first IPv4 candidate, or a failure if there is none; when IPv6 (and not IPv4)
  is requested it is the first IPv6 candidate in brackets, or a failure if there is
  none; when no family is requested it is the first IPv4 candidate, and only if there
  is none the first IPv6 candidate in brackets.
\<close>

theorem resolveAddress_lookup:
  "ParseIP address = None \<Longrightarrow>
     (LookupIP address = Inl err \<longrightarrow>
        resolveAddress ParseIP LookupIP address useIPv4 useIPv6 = Inl (LookupFailed address err)) \<and>
     (LookupIP address = Inr [] \<longrightarrow>
        resolveAddress ParseIP LookupIP address useIPv4 useIPv6 = Inl (NoIPFound address)) \<and>
     (LookupIP address = Inr ipList \<and> ipList \<noteq> [] \<longrightarrow>
        (useIPv4 \<longrightarrow>
           (\<forall>pre ip post. ipList = pre @ ip # post \<and> To4 ip \<and> (\<forall>x \<in> set pre. \<not> To4 x) \<longrightarrow>
              resolveAddress ParseIP LookupIP address useIPv4 useIPv6 = Inr (String ip)) \<and>
           ((\<forall>x \<in> set ipList. \<not> To4 x) \<longrightarrow>
              resolveAddress ParseIP LookupIP address useIPv4 useIPv6 = Inl (NoIPv4Found address))) \<and>
        (\<not> useIPv4 \<and> useIPv6 \<longrightarrow>
           (\<forall>pre ip post. ipList = pre @ ip # post \<and> \<not> To4 ip \<and> (\<forall>x \<in> set pre. To4 x) \<longrightarrow>
              resolveAddress ParseIP LookupIP address useIPv4 useIPv6
                = Inr (''['' @ String ip @ '']'')) \<and>
           ((\<forall>x \<in> set ipList. To4 x) \<longrightarrow>
              resolveAddress ParseIP LookupIP address useIPv4 useIPv6 = Inl (NoIPv6Found address))) \<and>
        (\<not> useIPv4 \<and> \<not> useIPv6 \<longrightarrow>
           (\<forall>pre ip post. ipList = pre @ ip # post \<and> To4 ip \<and> (\<forall>x \<in> set pre. \<not> To4 x) \<longrightarrow>
              resolveAddress ParseIP LookupIP address useIPv4 useIPv6 = Inr (String ip)) \<and>
           ((\<forall>x \<in> set ipList. \<not> To4 x) \<longrightarrow>
              resolveAddress ParseIP LookupIP address useIPv4 useIPv6
                = Inr (''['' @ String (hd ipList) @ '']''))))"
proof -
  assume lit: "ParseIP address = None"
  let ?r = "resolveAddress ParseIP LookupIP address useIPv4 useIPv6"
  have e1: "LookupIP address = Inl err \<longrightarrow> ?r = Inl (LookupFailed address err)"
    using lit by (simp add: resolveAddress_def)
  have e2: "LookupIP address = Inr [] \<longrightarrow> ?r = Inl (NoIPFound address)"
    using lit by (simp add: resolveAddress_def)
  have main: "LookupIP address = Inr ipList \<and> ipList \<noteq> [] \<longrightarrow>
        (useIPv4 \<longrightarrow>
           (\<forall>pre ip post. ipList = pre @ ip # post \<and> To4 ip \<and> (\<forall>x \<in> set pre. \<not> To4 x) \<longrightarrow>
              ?r = Inr (String ip)) \<and>
           ((\<forall>x \<in> set ipList. \<not> To4 x) \<longrightarrow> ?r = Inl (NoIPv4Found address))) \<and>
        (\<not> useIPv4 \<and> useIPv6 \<longrightarrow>
           (\<forall>pre ip post. ipList = pre @ ip # post \<and> \<not> To4 ip \<and> (\<forall>x \<in> set pre. To4 x) \<longrightarrow>
              ?r = Inr (''['' @ String ip @ '']'')) \<and>
           ((\<forall>x \<in> set ipList. To4 x) \<longrightarrow> ?r = Inl (NoIPv6Found address))) \<and>
        (\<not> useIPv4 \<and> \<not> useIPv6 \<longrightarrow>
           (\<forall>pre ip post. ipList = pre @ ip # post \<and> To4 ip \<and> (\<forall>x \<in> set pre. \<not> To4 x) \<longrightarrow>
              ?r = Inr (String ip)) \<and>
           ((\<forall>x \<in> set ipList. \<not> To4 x) \<longrightarrow> ?r = Inr (''['' @ String (hd ipList) @ '']'')))"
  proof (intro impI, elim conjE)
    assume lk: "LookupIP address = Inr ipList" and ne: "ipList \<noteq> []"
    have r: "?r =
        (if useIPv4 then
           (case find To4 ipList of Some ip \<Rightarrow> Inr (String ip) | None \<Rightarrow> Inl (NoIPv4Found address))
         else if useIPv6 then
           (case find (\<lambda>ip. \<not> To4 ip) ipList of
              Some ip \<Rightarrow> Inr (bracketed (String ip)) | None \<Rightarrow> Inl (NoIPv6Found address))
         else
           (case find To4 ipList of
              Some ip \<Rightarrow> Inr (String ip)
            | None \<Rightarrow>
                (case find (\<lambda>ip. \<not> To4 ip) ipList of
                   Some ip \<Rightarrow> Inr (bracketed (String ip))
                 | None \<Rightarrow> (let ip = hd ipList in
                     if \<not> To4 ip then Inr (bracketed (String ip)) else Inr (String ip)))))"
      using lit lk ne by (simp add: resolveAddress_def)
    have v4: "\<And>pre ip post. ipList = pre @ ip # post \<Longrightarrow> To4 ip \<Longrightarrow> \<forall>x \<in> set pre. \<not> To4 x
        \<Longrightarrow> find To4 ipList = Some ip"
      by (rule find_first)
    have v6: "\<And>pre ip post. ipList = pre @ ip # post \<Longrightarrow> \<not> To4 ip \<Longrightarrow> \<forall>x \<in> set pre. To4 x
        \<Longrightarrow> find (\<lambda>ip. \<not> To4 ip) ipList = Some ip"
      by (rule find_first) simp_all
    have no4: "\<forall>x \<in> set ipList. \<not> To4 x \<Longrightarrow> find To4 ipList = None"
      by (rule find_none)
    have no6: "\<forall>x \<in> set ipList. To4 x \<Longrightarrow> find (\<lambda>ip. \<not> To4 ip) ipList = None"
      by (rule find_none) simp
    have hd6: "\<forall>x \<in> set ipList. \<not> To4 x \<Longrightarrow> find (\<lambda>ip. \<not> To4 ip) ipList = Some (hd ipList)"
      using ne by (cases ipList) simp_all
    show "(useIPv4 \<longrightarrow>
           (\<forall>pre ip post. ipList = pre @ ip # post \<and> To4 ip \<and> (\<forall>x \<in> set pre. \<not> To4 x) \<longrightarrow>
              ?r = Inr (String ip)) \<and>
           ((\<forall>x \<in> set ipList. \<not> To4 x) \<longrightarrow> ?r = Inl (NoIPv4Found address))) \<and>
        (\<not> useIPv4 \<and> useIPv6 \<longrightarrow>
           (\<forall>pre ip post. ipList = pre @ ip # post \<and> \<not> To4 ip \<and> (\<forall>x \<in> set pre. To4 x) \<longrightarrow>
              ?r = Inr (''['' @ String ip @ '']'')) \<and>
           ((\<forall>x \<in> set ipList. To4 x) \<longrightarrow> ?r = Inl (NoIPv6Found address))) \<and>
        (\<not> useIPv4 \<and> \<not> useIPv6 \<longrightarrow>
           (\<forall>pre ip post. ipList = pre @ ip # post \<and> To4 ip \<and> (\<forall>x \<in> set pre. \<not> To4 x) \<longrightarrow>
              ?r = Inr (String ip)) \<and>
           ((\<forall>x \<in> set ipList. \<not> To4 x) \<longrightarrow> ?r = Inr (''['' @ String (hd ipList) @ '']'')))"
      unfolding r using v4 v6 no4 no6 hd6 by (simp add: bracketed_def)
  qed
  from e1 e2 main show ?thesis by blast
qed

text \<open>
  The theorem at a name with one IPv6 candidate followed by two IPv4 candidates, no
  family requested: the first IPv4 candidate is returned.
\<close>

theorem resolveAddress_lookup_witness:
  "(\<lambda>h. None :: IP option) ''example.com'' = None \<and>
   [IP False ''2001:db8::1'', IP True ''192.0.2.7'', IP True ''192.0.2.8''] \<noteq> [] \<and>
   [IP False ''2001:db8::1'', IP True ''192.0.2.7'', IP True ''192.0.2.8'']
     = [IP False ''2001:db8::1''] @ IP True ''192.0.2.7'' # [IP True ''192.0.2.8''] \<and>
   To4 (IP True ''192.0.2.7'') \<and>
   To4 (IP False ''2001:db8::1'') = False \<and>
   resolveAddress (\<lambda>h. None)
      (\<lambda>h. Inr [IP False ''2001:db8::1'', IP True ''192.0.2.7'', IP True ''192.0.2.8''])
      ''example.com'' False False = Inr ''192.0.2.7''"
  using resolveAddress_lookup [of "\<lambda>h. None" "''example.com''"
      "\<lambda>h. Inr [IP False ''2001:db8::1'', IP True ''192.0.2.7'', IP True ''192.0.2.8'']"
      "''''" False False
      "[IP False ''2001:db8::1'', IP True ''192.0.2.7'', IP True ''192.0.2.8'']"]
  by (simp add: resolveAddress_def)

subsection \<open>The summary\<close>

text \<open>
  Claim C9. The totals line, whose loss rate is printed with one decimal place, is
  printed only if \<open>sentCount > 0\<close>, and the RTT line, whose minimum, maximum and average
  are printed with two decimal places, is printed only if \<open>respondedCount > 0\<close> (and
  \<open>sentCount > 0\<close>); under these conditions the lines are printed.
\<close>

theorem printTCPingStatistics_lines:
  "(Plain (MsgStatsTotals a b c r) \<in> set (printTCPingStatistics st) \<longrightarrow>
      0 <s sentCount st \<and> a = sentCount st \<and> b = respondedCount st \<and>
      c = sentCount st - respondedCount st \<and> (\<exists>v. r = Fixed 1 v)) \<and>
   (Plain (MsgStatsRTT x y z) \<in> set (printTCPingStatistics st) \<longrightarrow>
      0 <s sentCount st \<and> 0 <s respondedCount st \<and>
      x = Fixed 2 (minTime st) \<and> y = Fixed 2 (maxTime st) \<and>
      z = Fixed 2 (totalTime st / real_of_int (sint (respondedCount st)))) \<and>
   (0 <s sentCount st \<longrightarrow>
      (\<exists>v. Plain (MsgStatsTotals (sentCount st) (respondedCount st)
              (sentCount st - respondedCount st) (Fixed 1 v))
            \<in> set (printTCPingStatistics st))) \<and>
   (0 <s sentCount st \<and> 0 <s respondedCount st \<longrightarrow>
      Plain (MsgStatsRTT (Fixed 2 (minTime st)) (Fixed 2 (maxTime st))
         (Fixed 2 (totalTime st / real_of_int (sint (respondedCount st)))))
        \<in> set (printTCPingStatistics st))"
  by (simp add: printTCPingStatistics_def printSnapshot_def getStats_def Let_def)

text \<open>The theorem at a state with two attempts and one response of 3 ms.\<close>

theorem printTCPingStatistics_lines_witness:
  "Plain (MsgStatsTotals 2 1 1 (Fixed 1 50))
     \<in> set (printTCPingStatistics (updates [(3, True), (7, False)] Statistics_zero)) \<and>
   Plain (MsgStatsRTT (Fixed 2 3) (Fixed 2 3) (Fixed 2 3))
     \<in> set (printTCPingStatistics (updates [(3, True), (7, False)] Statistics_zero)) \<and>
   0 <s sentCount (updates [(3, True), (7, False)] Statistics_zero) \<and>
   0 <s respondedCount (updates [(3, True), (7, False)] Statistics_zero)"
  using printTCPingStatistics_lines [of 2 1 1 "Fixed 1 50"
      "updates [(3, True), (7, False)] Statistics_zero" "Fixed 2 3" "Fixed 2 3" "Fixed 2 3"]
  by (simp add: printTCPingStatistics_def printSnapshot_def getStats_def update_def
      Statistics_zero_def word_sless_alt)

subsection \<open>The effective port\<close>

text \<open>
  Claim C10. With a host and no positional port, a value of the port option that is
  zero or negative is ignored: the port checks raise no error, and when the checks on
  the flags, the interval and the timeout pass the result is the host with the default
  port \<^verbatim>\<open>80\<close>. With a positional port that \<^verbatim>\<open>Atoi\<close> rejects, or whose value is outside
  1 to 65535, the result is an error.
\<close>

theorem validateOptions_port:
  "(args = [host] \<and> Port opts \<le>s 0 \<longrightarrow>
      validateOptions opts args \<noteq> Inl PortFormatInvalid \<and>
      validateOptions opts args \<noteq> Inl PortOutOfRange \<and>
      (\<not> (UseIPv4 opts \<and> UseIPv6 opts) \<and> \<not> Interval opts <s 0 \<and> \<not> Timeout opts <s 0 \<longrightarrow>
         validateOptions opts args = Inr (host, ''80''))) \<and>
   (args = host # p # rest \<and>
      (Atoi p = None \<or> (\<exists>n. Atoi p = Some n \<and> (n \<le>s 0 \<or> 65535 <s n))) \<longrightarrow>
      (\<exists>e. validateOptions opts args = Inl e))"
proof -
  have a80: "Atoi ''80'' = Some 80"
    by (simp add: Atoi_def is_digit_def)
  have np: "Port opts \<le>s 0 \<Longrightarrow> \<not> 0 <s Port opts"
    by (simp add: word_sle_eq word_sless_alt)
  show ?thesis
    by (auto simp add: validateOptions_def a80 np word_sle_eq word_sless_alt)
qed

text \<open>
  The theorem at the port option \<open>-1\<close> with no positional port, and at the positional
  ports \<^verbatim>\<open>70000\<close> and \<^verbatim>\<open>8x\<close>.
\<close>

theorem validateOptions_port_witness:
  "Port (default_opts\<lparr>Port := - 1\<rparr>) \<le>s 0 \<and>
   validateOptions (default_opts\<lparr>Port := - 1\<rparr>) [''example.com'']
     = Inr (''example.com'', ''80'') \<and>
   Atoi ''70000'' = Some 70000 \<and> (65535 :: go_int) <s 70000 \<and>
   validateOptions default_opts [''example.com'', ''70000''] = Inl PortOutOfRange \<and>
   Atoi ''8x'' = None \<and>
   validateOptions default_opts [''example.com'', ''8x''] = Inl PortFormatInvalid"
  using validateOptions_port [of "[''example.com'']" "''example.com''"
      "default_opts\<lparr>Port := - 1\<rparr>" "''''" "[]"]
    validateOptions_port [of "[''example.com'', ''70000'']" "''example.com''"
      default_opts "''70000''" "[]"]
    validateOptions_port [of "[''example.com'', ''8x'']" "''example.com''"
      default_opts "''8x''" "[]"]
  by (simp add: validateOptions_def default_opts_def Atoi_def is_digit_def
      word_sless_alt word_sle_eq)

end
